theory Spec2Isabelle
  imports
    Complex_Main
    "HOL-Library.Char_ord"
    "HOL-Library.List_Lexorder"
    "HOL-Library.Multiset"
    "HOL-Library.Product_Lexorder"
begin

section \<open>The data frame of the vaccination dashboard\<close>

text \<open>
  The dashboard script \<^verbatim>\<open>covid_vax_dashboard.py\<close> (and the generator script that
  writes it out, which runs the same pipeline for its previews) reads a CSV file with the
  columns \<^verbatim>\<open>Entity\<close>, \<^verbatim>\<open>Day\<close> and \<^verbatim>\<open>COVID-19 doses (daily)\<close> into a pandas
  data frame and derives every view from that frame.

  A frame is the list of its rows, in row order. The type parameter is the type of a cell
  of the \<^verbatim>\<open>Day\<close> column: a string as read from the file, an optional time stamp after
  \<^verbatim>\<open>pd.to_datetime(..., errors='coerce')\<close> (\<open>None\<close> is \<^verbatim>\<open>NaT\<close>), a time stamp
  after \<^verbatim>\<open>dropna\<close>. Time stamps are any linearly ordered type. The entity is a
  string, compared as Python compares strings (lexicographically by character). A dose
  count is a whole number; an empty cell is \<^verbatim>\<open>NaN\<close>, here \<open>None\<close>. Means are exact
  rationals: the rounding of 64-bit floating point is not modelled.
\<close>

record 't row =
  Entity :: string
  Day :: 't
  doses :: "int option"

datatype error = FileNotFoundError | ValueError

subsection \<open>The pandas operations the script calls\<close>

text \<open>\<^verbatim>\<open>pd.read_csv(path)\<close>: the table stored under the path, or the error raised when
  there is no such file. The file system is a map from paths to tables.\<close>

definition read_csv :: "(string \<rightharpoonup> string row list) \<Rightarrow> string \<Rightarrow> error + string row list" where
  "read_csv fs path = (case fs path of None \<Rightarrow> Inl FileNotFoundError | Some df \<Rightarrow> Inr df)"

text \<open>\<^verbatim>\<open>df['Day'] = pd.to_datetime(df['Day'], errors='coerce')\<close>: every cell of the
  column is replaced by its time stamp, or by \<^verbatim>\<open>NaT\<close> when it does not parse. The
  parser of one cell is a parameter.\<close>

definition to_datetime :: "(string \<Rightarrow> 'd option) \<Rightarrow> string row list \<Rightarrow> 'd option row list" where
  "to_datetime parse df =
     map (\<lambda>r. \<lparr>Entity = Entity r, Day = parse (Day r), doses = doses r\<rparr>) df"

text \<open>\<^verbatim>\<open>df.dropna(subset=['Day'])\<close>: the rows whose \<^verbatim>\<open>Day\<close> is not \<^verbatim>\<open>NaT\<close>, in
  row order.\<close>

definition dropna_Day :: "'d option row list \<Rightarrow> 'd row list" where
  "dropna_Day df =
     List.map_filter
       (\<lambda>r. case Day r of None \<Rightarrow> None
            | Some d \<Rightarrow> Some \<lparr>Entity = Entity r, Day = d, doses = doses r\<rparr>) df"

text \<open>\<^verbatim>\<open>Series.sum()\<close> skips \<^verbatim>\<open>NaN\<close>; the sum of no value is 0.\<close>

definition nansum :: "int option list \<Rightarrow> int" where
  "nansum xs = (\<Sum>x\<leftarrow>xs. case x of None \<Rightarrow> 0 | Some v \<Rightarrow> v)"

text \<open>\<^verbatim>\<open>df.groupby(key, as_index=False)['COVID-19 doses (daily)'].sum()\<close>: one row per
  distinct key, the keys in ascending order (\<^verbatim>\<open>sort=True\<close> is the default), each with
  the sum of the doses of the rows that have this key.\<close>

definition groupby_sum :: "('t row \<Rightarrow> 'k::linorder) \<Rightarrow> 't row list \<Rightarrow> ('k \<times> int) list" where
  "groupby_sum key df =
     map (\<lambda>k. (k, nansum (map doses (filter (\<lambda>r. key r = k) df))))
       (sort (remdups (map key df)))"

text \<open>\<^verbatim>\<open>sort_values(by, ascending=...)\<close> on one column. pandas sorts the column's
  values in ascending order and, for a descending sort, reverses the rows before and
  the result after. The script leaves \<^verbatim>\<open>kind\<close> at its default, \<^verbatim>\<open>'quicksort'\<close>, for
  which pandas promises no order among rows with equal values. Here such rows are kept
  in the order in which they enter the ascending sort, as an insertion sort leaves them;
  no general statement below rests on that order.\<close>

definition sort_values :: "('r \<Rightarrow> 'k::linorder) \<Rightarrow> bool \<Rightarrow> 'r list \<Rightarrow> 'r list" where
  "sort_values by ascending df =
     (if ascending then sort_key by df else rev (sort_key by (rev df)))"

text \<open>\<^verbatim>\<open>df.head(n)\<close>: the first \<open>n\<close> rows; for a negative \<open>n\<close>, all rows but the
  last \<open>-n\<close>.\<close>

definition head :: "int \<Rightarrow> 'r list \<Rightarrow> 'r list" where
  "head n df = (if 0 \<le> n then take (nat n) df else take (length df - nat (- n)) df)"

text \<open>\<^verbatim>\<open>Series.mean()\<close>: \<^verbatim>\<open>NaN\<close> for an empty series.\<close>

definition mean :: "int list \<Rightarrow> rat option" where
  "mean xs = (if xs = [] then None else Some (of_int (sum_list xs) / of_nat (length xs)))"

text \<open>\<^verbatim>\<open>Series.rolling(window, min_periods=m).mean()\<close>: at row \<open>i\<close> the mean of the
  values in the last \<open>window\<close> rows up to and including \<open>i\<close>, \<^verbatim>\<open>NaN\<close> when there are
  fewer than \<open>m\<close> of them.\<close>

definition rolling_mean :: "nat \<Rightarrow> nat \<Rightarrow> int list \<Rightarrow> rat option list" where
  "rolling_mean window min_periods xs =
     map (\<lambda>i. let w = drop (Suc i - window) (take (Suc i) xs)
               in if min_periods \<le> length w then mean w else None)
       [0..<length xs]"



text \<open>Python's \<^verbatim>\<open>int(x)\<close> on a float: truncation towards zero; \<^verbatim>\<open>NaN\<close> raises.\<close>

definition py_int :: "rat option \<Rightarrow> error + int" where
  "py_int x =
     (case x of None \<Rightarrow> Inl ValueError
      | Some q \<Rightarrow> Inr (if q < 0 then \<lceil>q\<rceil> else \<lfloor>q\<rfloor>))"

section \<open>The script\<close>

subsection \<open>\<^verbatim>\<open>load_data\<close>\<close>

definition load_data ::
  "(string \<Rightarrow> 'd option) \<Rightarrow> (string \<rightharpoonup> string row list) \<Rightarrow> string \<Rightarrow> error + 'd row list" where
  "load_data parse fs path =
     (case read_csv fs path of
        Inl e \<Rightarrow> Inl e
      | Inr df \<Rightarrow> Inr (dropna_Day (to_datetime parse df)))"

subsection \<open>The headline numbers\<close>



definition avg_daily :: "'d::linorder row list \<Rightarrow> error + int" where
  "avg_daily df = py_int (mean (map snd (groupby_sum Day df)))"



subsection \<open>The global time series\<close>

text \<open>A row of the series: \<^verbatim>\<open>Day\<close>, \<^verbatim>\<open>COVID-19 doses (daily)\<close> (the day's total) and
  \<^verbatim>\<open>7d_avg\<close>.\<close>

definition global_daily :: "'d::linorder row list \<Rightarrow> ('d \<times> int \<times> rat option) list" where
  "global_daily df =
     (let g = sort_values fst True (groupby_sum Day df)
      in map2 (\<lambda>(d, t) a. (d, t, a)) g (rolling_mean 7 1 (map snd g)))"

subsection \<open>The ranking of the entities\<close>

definition top_entities :: "'d row list \<Rightarrow> (string \<times> int) list" where
  "top_entities df = sort_values snd False (groupby_sum Entity df)"

definition top_to_show :: "'d row list \<Rightarrow> int \<Rightarrow> (string \<times> int) list" where
  "top_to_show df top_n = head top_n (top_entities df)"

subsection \<open>The time series of one entity\<close>

definition ent_df :: "'d::linorder row list \<Rightarrow> string \<Rightarrow> ('d \<times> int \<times> rat option) list" where
  "ent_df df chosen =
     (let e = sort_values fst True (groupby_sum Day (filter (\<lambda>r. Entity r = chosen) df))
      in map2 (\<lambda>(d, t) a. (d, t, a)) e (rolling_mean 7 1 (map snd e)))"

text \<open>The columns of a time series.\<close>

definition col_Day :: "('d \<times> int \<times> rat option) list \<Rightarrow> 'd list" where
  "col_Day s = map (\<lambda>(d, t, a). d) s"

definition col_doses :: "('d \<times> int \<times> rat option) list \<Rightarrow> int list" where
  "col_doses s = map (\<lambda>(d, t, a). t) s"

definition col_7d_avg :: "('d \<times> int \<times> rat option) list \<Rightarrow> rat option list" where
  "col_7d_avg s = map (\<lambda>(d, t, a). a) s"

text \<open>The sum of the doses of the rows of one day, and of one entity.\<close>

definition day_total :: "'d row list \<Rightarrow> 'd \<Rightarrow> int" where
  "day_total df d = nansum (map doses (filter (\<lambda>r. Day r = d) df))"

definition entity_total :: "'d row list \<Rightarrow> string \<Rightarrow> int" where
  "entity_total df e = nansum (map doses (filter (\<lambda>r. Entity r = e) df))"

subsection \<open>Ties in input order, as the specification words it\<close>

text \<open>The position at which an entity first occurs in the frame, and the property that
  the rows of a ranking with equal totals stand in the order of these positions.\<close>

definition input_position :: "'d row list \<Rightarrow> string \<Rightarrow> nat" where
  "input_position df e = length (takeWhile (\<lambda>r. Entity r \<noteq> e) df)"

definition ties_in_input_order :: "'d row list \<Rightarrow> (string \<times> int) list \<Rightarrow> bool" where
  "ties_in_input_order df ranking =
     list_all (\<lambda>(i, j).
         \<not> (i < j \<and> snd (ranking ! i) = snd (ranking ! j))
         \<or> input_position df (fst (ranking ! i)) < input_position df (fst (ranking ! j)))
       (List.product [0..<length ranking] [0..<length ranking])"

subsection \<open>Sample frames\<close>

text \<open>Calendar dates are triples of year, month and day, in lexicographic order.\<close>

type_synonym date = "nat \<times> nat \<times> nat"

definition sample_frame :: "date row list" where
  "sample_frame =
     [\<lparr>Entity = ''A'', Day = (2021, 1, 1), doses = Some 10\<rparr>,
      \<lparr>Entity = ''B'', Day = (2021, 1, 1), doses = Some 5\<rparr>,
      \<lparr>Entity = ''A'', Day = (2021, 1, 2), doses = Some 20\<rparr>]"

definition tied_frame :: "date row list" where
  "tied_frame =
     [\<lparr>Entity = ''B'', Day = (2021, 1, 1), doses = Some 5\<rparr>,
      \<lparr>Entity = ''A'', Day = (2021, 1, 1), doses = Some 5\<rparr>]"

definition week_frame :: "date row list" where
  "week_frame =
     map (\<lambda>k. \<lparr>Entity = ''A'', Day = (2021, 1, k), doses = Some (int k * 7)\<rparr>) [8, 7, 6, 5, 4, 3, 2, 1]"

definition sample_file :: "string row list" where
  "sample_file =
     [\<lparr>Entity = ''B'', Day = ''2021-01-02'', doses = Some (- 4)\<rparr>,
      \<lparr>Entity = ''A'', Day = ''not a date'', doses = Some 7\<rparr>,
      \<lparr>Entity = ''A'', Day = ''2021-01-01'', doses = None\<rparr>]"


definition sample_parse :: "string \<Rightarrow> date option" where
  "sample_parse = map_of [(''2021-01-01'', (2021, 1, 1)), (''2021-01-02'', (2021, 1, 2))]"

section \<open>Properties of the grouping\<close>

lemma groupby_sum_keys: "map fst (groupby_sum key df) = sort (remdups (map key df))"
  by (simp add: groupby_sum_def comp_def)

lemma groupby_sum_length: "length (groupby_sum key df) = card (key ` set df)"
proof -
  have "length (groupby_sum key df) = length (remdups (map key df))"
    by (simp add: groupby_sum_def)
  also have "\<dots> = card (set (map key df))"
    by (simp add: length_remdups_card_conv)
  finally show ?thesis by simp
qed

lemma groupby_sum_sorted: "sorted (map fst (groupby_sum key df))"
  by (simp add: groupby_sum_keys)

lemma groupby_sum_distinct: "distinct (map fst (groupby_sum key df))"
  by (simp add: groupby_sum_keys)

lemma groupby_sum_strict: "sorted_wrt (<) (map fst (groupby_sum key df))"
  using groupby_sum_sorted [of key df] groupby_sum_distinct [of key df]
  by (simp add: strict_sorted_iff)

lemma groupby_sum_key_set: "set (map fst (groupby_sum key df)) = key ` set df"
  by (simp add: groupby_sum_keys)

lemma groupby_sum_row:
  "(k, t) \<in> set (groupby_sum key df) \<longleftrightarrow>
     k \<in> key ` set df \<and> t = nansum (map doses (filter (\<lambda>r. key r = k) df))"
  by (auto simp: groupby_sum_def)

lemma sort_values_asc_groupby: "sort_values fst True (groupby_sum key df) = groupby_sum key df"
  by (simp add: sort_values_def sort_key_id_if_sorted groupby_sum_sorted)

lemma rolling_mean_length: "length (rolling_mean w m xs) = length xs"
  by (simp add: rolling_mean_def)



lemma global_daily_unfold:
  "global_daily df =
     map2 (\<lambda>(d, t) a. (d, t, a)) (groupby_sum Day df) (rolling_mean 7 1 (map snd (groupby_sum Day df)))"
  by (simp add: global_daily_def sort_values_asc_groupby Let_def)

lemma global_daily_days: "map fst (global_daily df) = map fst (groupby_sum Day df)"
  unfolding global_daily_unfold
  by (rule nth_equalityI) (auto simp: rolling_mean_length split: prod.splits)

lemma global_daily_totals: "map (\<lambda>(d, t, a). t) (global_daily df) = map snd (groupby_sum Day df)"
  unfolding global_daily_unfold
  by (rule nth_equalityI) (auto simp: rolling_mean_length split: prod.splits)

lemma global_daily_avgs:
  "map (\<lambda>(d, t, a). a) (global_daily df) = rolling_mean 7 1 (map snd (groupby_sum Day df))"
  unfolding global_daily_unfold
  by (rule nth_equalityI) (auto simp: rolling_mean_length split: prod.splits)

lemma global_daily_length: "length (global_daily df) = card (Day ` set df)"
  using arg_cong [OF global_daily_days, of length df] by (simp add: groupby_sum_length)

section \<open>Conservation of the total\<close>


section \<open>The rolling average\<close>

lemma sum_list_window:
  fixes xs :: "int list"
  assumes "i < length xs"
  shows "sum_list (drop a (take (Suc i) xs)) = (\<Sum>k = a..i. xs ! k)"
proof -
  let ?w = "drop a (take (Suc i) xs)"
  have len: "length ?w = Suc i - a" using assms by simp
  have "sum_list ?w = (\<Sum>j = 0..<length ?w. ?w ! j)"
    by (rule sum_list_sum_nth)
  also have "\<dots> = (\<Sum>j = 0..<Suc i - a. ?w ! j)"
    by (simp only: len)
  also have "\<dots> = (\<Sum>j = 0..<Suc i - a. xs ! (j + a))"
    using assms by (intro sum.cong refl) (auto simp: add.commute)
  also have "\<dots> = (\<Sum>k = 0 + a..<(Suc i - a) + a. xs ! k)"
    by (simp only: sum.shift_bounds_nat_ivl)
  also have "\<dots> = (\<Sum>k = a..i. xs ! k)"
  proof (cases "a \<le> Suc i")
    case True
    then show ?thesis by (simp add: atLeastLessThanSuc_atLeastAtMost)
  next
    case False
    then show ?thesis by simp
  qed
  finally show ?thesis .
qed

lemma rolling_mean_nth:
  assumes "i < length xs"
  shows "rolling_mean 7 1 xs ! i = Some (of_int (\<Sum>k = i - 6..i. xs ! k) / of_nat (Suc i - (i - 6)))"
proof -
  define w where "w = drop (Suc i - 7) (take (Suc i) xs)"
  have len: "length w = Suc i - (i - 6)" using assms by (auto simp: w_def)
  then have ne: "w \<noteq> []" by auto
  have one: "1 \<le> length w" using len by simp
  have a: "Suc i - 7 = i - 6" by simp
  have "rolling_mean 7 1 xs ! i = mean w"
    using assms one unfolding rolling_mean_def w_def by (simp add: Let_def)
  also have "\<dots> = Some (of_int (sum_list w) / of_nat (length w))"
    using ne by (simp add: mean_def)
  also have "sum_list w = (\<Sum>k = i - 6..i. xs ! k)"
    unfolding w_def a by (rule sum_list_window [OF assms])
  finally show ?thesis by (simp only: len)
qed

text \<open>
  Claim C2. At every index \<open>i\<close> of the date-sorted global series, the rolling average is
  the mean of the day totals at the positions \<open>max(0, i - 6)\<close> to \<open>i\<close> (the difference
  \<open>i - 6\<close> of natural numbers is 0 below 6): for \<open>i < 6\<close> the mean of the first
  \<open>i + 1\<close> totals, never null, and from \<open>i = 6\<close> on the mean of the seven totals at
  \<open>i - 6\<close> to \<open>i\<close>.
\<close>

theorem rolling_avg_7d_trailing_window:
  "i < length (global_daily df) \<Longrightarrow>
     col_7d_avg (global_daily df) ! i =
       Some (of_int (\<Sum>k = i - 6..i. col_doses (global_daily df) ! k) / of_nat (min (i + 1) 7))
   \<and> (i < 6 \<longrightarrow> col_7d_avg (global_daily df) ! i =
         Some (of_int (\<Sum>k = 0..i. col_doses (global_daily df) ! k) / of_nat (i + 1)))
   \<and> (6 \<le> i \<longrightarrow> col_7d_avg (global_daily df) ! i =
         Some (of_int (\<Sum>k = i - 6..i. col_doses (global_daily df) ! k) / 7))"
proof -
  assume i: "i < length (global_daily df)"
  let ?t = "map snd (groupby_sum Day df)"
  have t: "col_doses (global_daily df) = ?t"
    by (simp add: col_doses_def global_daily_totals)
  have "length (col_doses (global_daily df)) = length (global_daily df)"
    by (simp add: col_doses_def)
  then have it: "i < length ?t" using i t by simp
  have main: "col_7d_avg (global_daily df) ! i
      = Some (of_int (\<Sum>k = i - 6..i. ?t ! k) / of_nat (Suc i - (i - 6)))"
    unfolding col_7d_avg_def global_daily_avgs by (rule rolling_mean_nth [OF it])
  have w: "Suc i - (i - 6) = min (i + 1) 7" by auto
  show ?thesis
  proof (intro conjI impI)
    show "col_7d_avg (global_daily df) ! i =
       Some (of_int (\<Sum>k = i - 6..i. col_doses (global_daily df) ! k) / of_nat (min (i + 1) 7))"
      using main by (simp only: t w)
  next
    assume "i < 6"
    then have "i - 6 = 0" "Suc i - (i - 6) = i + 1" by auto
    then show "col_7d_avg (global_daily df) ! i =
         Some (of_int (\<Sum>k = 0..i. col_doses (global_daily df) ! k) / of_nat (i + 1))"
      using main by (simp only: t)
  next
    assume "6 \<le> i"
    then have "Suc i - (i - 6) = 7" by auto
    then show "col_7d_avg (global_daily df) ! i =
         Some (of_int (\<Sum>k = i - 6..i. col_doses (global_daily df) ! k) / 7)"
      using main by (simp add: t)
  qed
qed

lemma week_frame_series:
  "global_daily week_frame =
     [((2021, 1, 1), 7, Some 7), ((2021, 1, 2), 14, Some (21 / 2)),
      ((2021, 1, 3), 21, Some 14), ((2021, 1, 4), 28, Some (35 / 2)),
      ((2021, 1, 5), 35, Some 21), ((2021, 1, 6), 42, Some (49 / 2)),
      ((2021, 1, 7), 49, Some 28), ((2021, 1, 8), 56, Some 35)]"
  by code_simp

theorem rolling_avg_7d_trailing_window_witness:
  "7 < length (global_daily week_frame)
   \<and> col_7d_avg (global_daily week_frame) ! 7 = Some 35
   \<and> (\<Sum>k = 7 - 6..7. col_doses (global_daily week_frame) ! k) = 245
   \<and> col_7d_avg (global_daily week_frame) ! 2 = Some 14
   \<and> (\<Sum>k = 0..2. col_doses (global_daily week_frame) ! k) = 42"
proof -
  have len: "7 < length (global_daily week_frame)" by (simp add: week_frame_series)
  have len2: "2 < length (global_daily week_frame)" by (simp add: week_frame_series)
  have s: "(\<Sum>k = 7 - 6..7. col_doses (global_daily week_frame) ! k) = 245"
    by (simp add: week_frame_series col_doses_def sum.atLeast_Suc_atMost)
  have s2: "(\<Sum>k = 0..2. col_doses (global_daily week_frame) ! k) = 42"
    by (simp add: week_frame_series col_doses_def sum.atLeast_Suc_atMost)
  from rolling_avg_7d_trailing_window [OF len]
  have "col_7d_avg (global_daily week_frame) ! 7 =
         Some (of_int (\<Sum>k = 7 - 6..7. col_doses (global_daily week_frame) ! k) / 7)"
    by simp
  then have a7: "col_7d_avg (global_daily week_frame) ! 7 = Some 35"
    by (simp only: s) simp
  from rolling_avg_7d_trailing_window [OF len2]
  have "col_7d_avg (global_daily week_frame) ! 2 =
         Some (of_int (\<Sum>k = 0..2. col_doses (global_daily week_frame) ! k) / of_nat (2 + 1))"
    by simp
  then have a2: "col_7d_avg (global_daily week_frame) ! 2 = Some 14"
    by (simp only: s2) simp
  from len s a7 a2 s2 show ?thesis by simp
qed

section \<open>The order of the global series\<close>

text \<open>
  Claim C3. The days of \<open>global_daily\<close> are strictly ascending and without duplicates;
  they are exactly the days that occur in the frame, one row for each, and the total of a
  row is the sum over all rows of the frame with this day, whatever their entity.
\<close>

theorem global_daily_strictly_ascending:
  "sorted_wrt (<) (col_Day (global_daily df))
   \<and> distinct (col_Day (global_daily df))
   \<and> set (col_Day (global_daily df)) = Day ` set df
   \<and> length (global_daily df) = card (Day ` set df)
   \<and> (\<forall>(d, t, a) \<in> set (global_daily df). t = day_total df d)"
proof -
  have d: "col_Day (global_daily df) = map fst (groupby_sum Day df)"
    using global_daily_days [of df] by (simp add: col_Day_def case_prod_unfold)
  have rows: "\<forall>(d, t, a) \<in> set (global_daily df). t = day_total df d"
  proof clarify
    fix d t a assume "(d, t, a) \<in> set (global_daily df)"
    then have "(d, t) \<in> set (groupby_sum Day df)"
      unfolding global_daily_unfold by (auto dest!: set_zip_leftD)
    then show "t = day_total df d"
      by (simp add: groupby_sum_row day_total_def)
  qed
  show ?thesis
    using rows by (simp add: d groupby_sum_strict groupby_sum_distinct groupby_sum_key_set
        global_daily_length del: set_map)
qed

theorem global_daily_strictly_ascending_witness:
  "col_Day (global_daily sample_frame) = [(2021, 1, 1), (2021, 1, 2)]
   \<and> sorted_wrt (<) (col_Day (global_daily sample_frame))
   \<and> day_total sample_frame (2021, 1, 1) = 15"
proof -
  have g: "global_daily sample_frame = [((2021, 1, 1), 15, Some 15), ((2021, 1, 2), 20, Some (35 / 2))]"
    by code_simp
  from global_daily_strictly_ascending [of sample_frame]
  show ?thesis by (simp add: g col_Day_def)
qed

section \<open>The ranking of the entities\<close>

lemma top_entities_mset: "mset (top_entities df) = mset (groupby_sum Entity df)"
  by (simp add: top_entities_def sort_values_def)

lemma top_entities_set: "set (top_entities df) = set (groupby_sum Entity df)"
  using top_entities_mset [of df] by (rule mset_eq_setD)

lemma top_entities_length: "length (top_entities df) = card (Entity ` set df)"
  using arg_cong [OF top_entities_mset, of size df] by (simp add: groupby_sum_length)

lemma top_entities_distinct: "distinct (map fst (top_entities df))"
proof -
  have "mset (map fst (top_entities df)) = mset (map fst (groupby_sum Entity df))"
    by (simp add: top_entities_mset)
  then show ?thesis
    using groupby_sum_distinct [of Entity df] by (metis mset_eq_imp_distinct_iff)
qed

lemma top_entities_sorted: "sorted_wrt (\<ge>) (map snd (top_entities df))"
proof -
  have "sorted (map snd (sort_key snd (rev (groupby_sum Entity df))))"
    by (rule sorted_sort_key)
  then have "sorted_wrt (\<ge>) (rev (map snd (sort_key snd (rev (groupby_sum Entity df)))))"
    by (simp only: sorted_wrt_rev)
  then show ?thesis
    by (simp only: top_entities_def sort_values_def rev_map if_False)
qed

lemma top_entities_row:
  "(e, t) \<in> set (top_entities df) \<longleftrightarrow> e \<in> Entity ` set df \<and> t = entity_total df e"
  by (simp add: top_entities_set groupby_sum_row entity_total_def)

lemma sorted_wrt_take_drop:
  assumes "sorted_wrt P xs" "x \<in> set (take n xs)" "y \<in> set (drop n xs)"
  shows "P x y"
proof -
  have "sorted_wrt P (take n xs @ drop n xs)" using assms(1) by simp
  then show ?thesis using assms(2,3) unfolding sorted_wrt_append by blast
qed

text \<open>
  Claim C4. For \<open>n \<ge> 0\<close> the ranking cut to \<open>n\<close> rows has \<open>min n\<close> (number of distinct
  entities) rows, is sorted descending by total, holds each entity at most once with its
  total, and every total in it is at least the total of every entity left out. When \<open>n\<close>
  is at least the number of entities, all of them are returned, nothing more.
\<close>

theorem top_to_show_ranking:
  "0 \<le> n \<Longrightarrow>
     length (top_to_show df n) = min (nat n) (card (Entity ` set df))
   \<and> sorted_wrt (\<ge>) (map snd (top_to_show df n))
   \<and> distinct (map fst (top_to_show df n))
   \<and> (\<forall>(e, t) \<in> set (top_to_show df n). e \<in> Entity ` set df \<and> t = entity_total df e)
   \<and> (\<forall>(e, t) \<in> set (top_to_show df n).
        \<forall>e' \<in> Entity ` set df - fst ` set (top_to_show df n). entity_total df e' \<le> t)
   \<and> (int (card (Entity ` set df)) \<le> n \<longrightarrow>
        top_to_show df n = top_entities df \<and> fst ` set (top_to_show df n) = Entity ` set df)"
proof -
  assume n: "0 \<le> n"
  define s where "s = top_entities df"
  define m where "m = nat n"
  have top: "top_to_show df n = take m s"
    using n by (simp add: top_to_show_def head_def s_def m_def)
  have len: "length (take m s) = min m (card (Entity ` set df))"
    by (simp add: s_def top_entities_length min.commute)
  have srt: "sorted_wrt (\<ge>) (map snd (take m s))"
    using top_entities_sorted [of df] unfolding s_def [symmetric] take_map [symmetric]
    by (rule sorted_wrt_take)
  have dst: "distinct (map fst (take m s))"
    using top_entities_distinct [of df] unfolding s_def [symmetric] take_map [symmetric]
    by (rule distinct_take)
  have rows: "\<forall>(e, t) \<in> set (take m s). e \<in> Entity ` set df \<and> t = entity_total df e"
  proof clarify
    fix e t assume "(e, t) \<in> set (take m s)"
    then have "(e, t) \<in> set (top_entities df)" unfolding s_def by (rule in_set_takeD)
    then show "e \<in> Entity ` set df \<and> t = entity_total df e" by (simp add: top_entities_row)
  qed
  have excl: "\<forall>(e, t) \<in> set (take m s).
        \<forall>e' \<in> Entity ` set df - fst ` set (take m s). entity_total df e' \<le> t"
  proof clarify
    fix e t r assume et: "(e, t) \<in> set (take m s)" and r: "r \<in> set df"
      and out: "Entity r \<notin> fst ` set (take m s)"
    let ?y = "(Entity r, entity_total df (Entity r))"
    have "?y \<in> set s" using r by (simp add: s_def top_entities_row)
    then have "?y \<in> set (take m s) \<union> set (drop m s)"
      by (simp only: set_append [symmetric] append_take_drop_id)
    moreover have "?y \<notin> set (take m s)" using out by force
    ultimately have y: "?y \<in> set (drop m s)" by simp
    have "sorted_wrt (\<lambda>a b. snd b \<le> snd a) s"
      using top_entities_sorted [of df] by (simp add: s_def sorted_wrt_map)
    from sorted_wrt_take_drop [OF this et y]
    show "entity_total df (Entity r) \<le> t" by simp
  qed
  have all: "int (card (Entity ` set df)) \<le> n \<longrightarrow>
        take m s = top_entities df \<and> fst ` set (take m s) = Entity ` set df"
  proof
    assume "int (card (Entity ` set df)) \<le> n"
    then have "length s \<le> m" by (simp add: s_def top_entities_length m_def)
    then have "take m s = s" by simp
    moreover have "fst ` set s = Entity ` set df"
      unfolding s_def top_entities_set using groupby_sum_key_set [of Entity df] by simp
    ultimately show "take m s = top_entities df \<and> fst ` set (take m s) = Entity ` set df"
      by (simp add: s_def)
  qed
  show ?thesis
    unfolding top m_def [symmetric] using len srt dst rows excl all by blast
qed

theorem top_to_show_ranking_witness:
  "(0::int) \<le> 1
   \<and> length (top_to_show sample_frame 1) = min (nat 1) (card (Entity ` set sample_frame))
   \<and> top_to_show sample_frame 1 = [(''A'', 30)]
   \<and> entity_total sample_frame ''B'' \<le> 30"
proof -
  have t: "top_to_show sample_frame 1 = [(''A'', 30)]" by code_simp
  have b: "''B'' \<in> Entity ` set sample_frame - fst ` set (top_to_show sample_frame 1)"
    by (simp add: t) (simp add: sample_frame_def)
  from top_to_show_ranking [of 1 sample_frame] b
  show ?thesis by (simp add: t)
qed

subsection \<open>Ties\<close>

lemma groupby_sum_mset:
  assumes "mset df = mset df'"
  shows "groupby_sum key df = groupby_sum key df'"
proof -
  have s: "set df = set df'" using assms by (rule mset_eq_setD)
  have keys: "sort (remdups (map key df)) = sort (remdups (map key df'))"
    by (simp add: sorted_list_of_set_sort_remdups [symmetric] s)
  have sums: "nansum (map doses (filter P df)) = nansum (map doses (filter P df'))" for P
  proof -
    let ?f = "\<lambda>x. case x of None \<Rightarrow> (0::int) | Some v \<Rightarrow> v"
    have "mset (map ?f (map doses (filter P df))) = mset (map ?f (map doses (filter P df')))"
      by (simp add: assms)
    then have "sum_mset (mset (map ?f (map doses (filter P df))))
             = sum_mset (mset (map ?f (map doses (filter P df'))))"
      by (rule arg_cong)
    then show ?thesis by (simp only: sum_mset_sum_list nansum_def)
  qed
  show ?thesis by (simp only: groupby_sum_def keys sums)
qed

text \<open>
  Claim C5, as amended. The ranking is computed from the per-entity totals that the
  grouping has put in ascending order of the entity name, so it is the same for every
  reordering of the rows of the frame: entities with equal totals are not ranked by their
  position in the input. The sort has no secondary key.
\<close>

theorem top_entities_ignores_input_order:
  "mset df = mset df' \<Longrightarrow>
     top_entities df = top_entities df' \<and> top_to_show df n = top_to_show df' n"
  by (simp add: top_entities_def top_to_show_def groupby_sum_mset [of df df'])

theorem top_entities_ignores_input_order_witness:
  "mset tied_frame = mset (rev tied_frame)
   \<and> top_to_show tied_frame 2 = top_to_show (rev tied_frame) 2
   \<and> top_to_show tied_frame 2 = [(''A'', 5), (''B'', 5)]
   \<and> map Entity tied_frame = [''B'', ''A'']"
proof -
  have m: "mset tied_frame = mset (rev tied_frame)" by simp
  have t: "top_to_show tied_frame 2 = [(''A'', 5), (''B'', 5)]" by code_simp
  have e: "map Entity tied_frame = [''B'', ''A'']" by (simp add: tied_frame_def)
  from top_entities_ignores_input_order [OF m, of 2] m t e show ?thesis by simp
qed

text \<open>
  The claim as the specification words it fails on the frame with the rows
  (B, 2021-01-01, 5) and (A, 2021-01-01, 5): B comes first in the input and both totals
  are 5, yet the ranking is (A, 5), (B, 5).
\<close>

theorem ties_not_in_input_order:
  "top_entities tied_frame = [(''A'', 5), (''B'', 5)]
   \<and> input_position tied_frame ''B'' = 0
   \<and> input_position tied_frame ''A'' = 1
   \<and> \<not> ties_in_input_order tied_frame (top_entities tied_frame)"
  by code_simp

section \<open>The time series of one entity\<close>

text \<open>
  Claim C6. The series of a chosen entity is \<open>global_daily\<close> of the rows whose entity is
  exactly the chosen one; an entity that no row has gives the empty series.
\<close>

theorem ent_df_is_global_daily_of_subset:
  "ent_df df chosen = global_daily (filter (\<lambda>r. Entity r = chosen) df)
   \<and> (chosen \<notin> Entity ` set df \<longrightarrow> ent_df df chosen = [])"
proof -
  have eq: "ent_df df chosen = global_daily (filter (\<lambda>r. Entity r = chosen) df)"
    by (simp only: ent_df_def global_daily_def)
  have "chosen \<notin> Entity ` set df \<Longrightarrow> filter (\<lambda>r. Entity r = chosen) df = []"
    by (auto simp: filter_empty_conv)
  moreover have "global_daily ([] :: 'a row list) = []"
    by (simp add: global_daily_def groupby_sum_def sort_values_def rolling_mean_def)
  ultimately show ?thesis using eq by simp
qed

theorem ent_df_is_global_daily_of_subset_witness:
  "ent_df sample_frame ''B'' = [((2021, 1, 1), 5, Some 5)]
   \<and> ent_df sample_frame ''B'' = global_daily (filter (\<lambda>r. Entity r = ''B'') sample_frame)
   \<and> ''C'' \<notin> Entity ` set sample_frame
   \<and> ent_df sample_frame ''C'' = []"
proof -
  have b: "ent_df sample_frame ''B'' = [((2021, 1, 1), 5, Some 5)]" by code_simp
  have c: "''C'' \<notin> Entity ` set sample_frame" by (simp add: sample_frame_def)
  from ent_df_is_global_daily_of_subset [of sample_frame "''C''"] c
  have e: "ent_df sample_frame ''C'' = []" by blast
  from ent_df_is_global_daily_of_subset [of sample_frame "''B''"]
  have g: "ent_df sample_frame ''B'' = global_daily (filter (\<lambda>r. Entity r = ''B'') sample_frame)"
    by blast
  from b g c e show ?thesis by blast
qed

section \<open>Loading\<close>

lemma dropna_to_datetime:
  "map (\<lambda>r. (Entity r, Some (Day r), doses r)) (dropna_Day (to_datetime parse rows)) =
   map (\<lambda>r. (Entity r, parse (Day r), doses r)) (filter (\<lambda>r. parse (Day r) \<noteq> None) rows)"
  by (induction rows)
    (auto simp: dropna_Day_def to_datetime_def map_filter_simps split: option.splits)

text \<open>
  Claim C7. When the file can be read, \<open>load_data\<close> returns the rows whose date parses,
  in the order of the file; each carries its parsed day, and its entity and dose count
  (negative or missing included) as they were read.
\<close>

theorem load_data_keeps_parsed_rows:
  "fs path = Some rows \<Longrightarrow>
     (\<exists>df. load_data parse fs path = Inr df
        \<and> map (\<lambda>r. (Entity r, Some (Day r), doses r)) df =
            map (\<lambda>r. (Entity r, parse (Day r), doses r))
              (filter (\<lambda>r. parse (Day r) \<noteq> None) rows)
        \<and> length df = length (filter (\<lambda>r. parse (Day r) \<noteq> None) rows))"
proof -
  assume f: "fs path = Some rows"
  let ?df = "dropna_Day (to_datetime parse rows)"
  have l: "load_data parse fs path = Inr ?df"
    by (simp add: load_data_def read_csv_def f)
  have m: "map (\<lambda>r. (Entity r, Some (Day r), doses r)) ?df =
            map (\<lambda>r. (Entity r, parse (Day r), doses r))
              (filter (\<lambda>r. parse (Day r) \<noteq> None) rows)"
    by (rule dropna_to_datetime)
  from arg_cong [OF m, of length] have "length ?df = length (filter (\<lambda>r. parse (Day r) \<noteq> None) rows)"
    by simp
  with l m show ?thesis by blast
qed

theorem load_data_keeps_parsed_rows_witness:
  "[''doses.csv'' \<mapsto> sample_file] ''doses.csv'' = Some sample_file
   \<and> load_data sample_parse [''doses.csv'' \<mapsto> sample_file] ''doses.csv'' =
       Inr [\<lparr>Entity = ''B'', Day = (2021, 1, 2), doses = Some (- 4)\<rparr>,
            \<lparr>Entity = ''A'', Day = (2021, 1, 1), doses = None\<rparr>]
   \<and> filter (\<lambda>r. sample_parse (Day r) \<noteq> None) sample_file =
       [\<lparr>Entity = ''B'', Day = ''2021-01-02'', doses = Some (- 4)\<rparr>,
        \<lparr>Entity = ''A'', Day = ''2021-01-01'', doses = None\<rparr>]"
proof -
  have f: "[''doses.csv'' \<mapsto> sample_file] ''doses.csv'' = Some sample_file" by simp
  have p: "filter (\<lambda>r. sample_parse (Day r) \<noteq> None) sample_file =
       [\<lparr>Entity = ''B'', Day = ''2021-01-02'', doses = Some (- 4)\<rparr>,
        \<lparr>Entity = ''A'', Day = ''2021-01-01'', doses = None\<rparr>]"
    by (simp add: sample_file_def sample_parse_def)
  from load_data_keeps_parsed_rows [where fs = "[''doses.csv'' \<mapsto> sample_file]"
      and path = "''doses.csv''" and rows = sample_file and parse = sample_parse] f
  obtain df where
    l: "load_data sample_parse [''doses.csv'' \<mapsto> sample_file] ''doses.csv'' = Inr df"
    and m: "map (\<lambda>r. (Entity r, Some (Day r), doses r)) df =
            map (\<lambda>r. (Entity r, sample_parse (Day r), doses r))
              (filter (\<lambda>r. sample_parse (Day r) \<noteq> None) sample_file)"
    by blast
  from m [unfolded p] have "map (\<lambda>r. (Entity r, Some (Day r), doses r)) df =
      [(''B'', Some (2021, 1, 2), Some (- 4)), (''A'', Some (2021, 1, 1), None)]"
    by (simp add: sample_parse_def)
  then have "df = [\<lparr>Entity = ''B'', Day = (2021, 1, 2), doses = Some (- 4)\<rparr>,
            \<lparr>Entity = ''A'', Day = (2021, 1, 1), doses = None\<rparr>]"
    by (auto simp: map_eq_Cons_conv)
  with f l p show ?thesis by simp
qed

section \<open>The headline numbers\<close>

lemma py_int_mean:
  fixes S :: int and n :: nat
  assumes "0 < n"
  shows "(if (of_int S / of_nat n :: rat) < 0 then \<lceil>of_int S / of_nat n :: rat\<rceil>
          else \<lfloor>of_int S / of_nat n :: rat\<rfloor>) = sgn S * (\<bar>S\<bar> div int n)"
proof (cases "S < 0")
  case True
  have q: "(of_int S / of_nat n :: rat) < 0"
    using True assms by (simp add: divide_neg_pos)
  have "\<lceil>of_int S / of_nat n :: rat\<rceil> = - \<lfloor>of_int (- S) / of_int (int n) :: rat\<rfloor>"
    by (simp add: ceiling_def)
  also have "\<dots> = - ((- S) div int n)"
    by (simp only: floor_divide_of_int_eq)
  finally show ?thesis using True q by (simp add: sgn_if)
next
  case False
  then have q: "\<not> (of_int S / of_nat n :: rat) < 0"
    using assms by (simp add: not_less)
  have "\<lfloor>of_int S / of_int (int n) :: rat\<rfloor> = S div int n"
    by (simp only: floor_divide_of_int_eq)
  then show ?thesis using False q by (simp add: sgn_if)
qed

lemma days_nonempty: "df \<noteq> [] \<Longrightarrow> 0 < card (Day ` set df)"
  by (simp add: card_gt_0_iff)

lemma avg_daily_value:
  assumes "df \<noteq> []"
  shows "mean (map snd (groupby_sum Day df)) =
           Some (of_int (sum_list (map snd (groupby_sum Day df))) / of_nat (card (Day ` set df)))"
    and "avg_daily df =
           Inr (sgn (sum_list (map snd (groupby_sum Day df)))
                * (\<bar>sum_list (map snd (groupby_sum Day df))\<bar> div int (card (Day ` set df))))"
proof -
  let ?t = "map snd (groupby_sum Day df)"
  have len: "length ?t = card (Day ` set df)"
    by (simp add: groupby_sum_length)
  have pos: "0 < card (Day ` set df)" using assms by (rule days_nonempty)
  then have "?t \<noteq> []" using len by auto
  then show m: "mean ?t = Some (of_int (sum_list ?t) / of_nat (card (Day ` set df)))"
    by (simp add: mean_def groupby_sum_length)
  show "avg_daily df = Inr (sgn (sum_list ?t) * (\<bar>sum_list ?t\<bar> div int (card (Day ` set df))))"
    unfolding avg_daily_def m py_int_def using py_int_mean [OF pos, of "sum_list ?t"] by simp
qed

text \<open>
  Claim C8. The headline average is the mean of the total column of \<open>global_daily\<close>,
  that is the grand total divided by the number of distinct days (not by the number of
  rows), cut to an integer towards zero.
\<close>

theorem avg_daily_truncated_mean:
  "avg_daily df = py_int (mean (col_doses (global_daily df)))
   \<and> (df \<noteq> [] \<longrightarrow>
        mean (col_doses (global_daily df)) =
          Some (of_int (sum_list (col_doses (global_daily df))) / of_nat (card (Day ` set df)))
      \<and> avg_daily df =
          Inr (sgn (sum_list (col_doses (global_daily df)))
               * (\<bar>sum_list (col_doses (global_daily df))\<bar> div int (card (Day ` set df)))))"
proof -
  have t: "col_doses (global_daily df) = map snd (groupby_sum Day df)"
    by (simp add: col_doses_def global_daily_totals)
  have a: "avg_daily df = py_int (mean (col_doses (global_daily df)))"
    by (simp only: avg_daily_def t)
  from a avg_daily_value [of df] show ?thesis
    by (simp only: t) blast
qed

theorem avg_daily_truncated_mean_witness:
  "sample_frame \<noteq> []
   \<and> mean (col_doses (global_daily sample_frame)) = Some (35 / 2)
   \<and> avg_daily sample_frame = Inr 17
   \<and> length sample_frame = 3"
proof -
  have ne: "sample_frame \<noteq> []" by (simp add: sample_frame_def)
  have g: "global_daily sample_frame = [((2021, 1, 1), 15, Some 15), ((2021, 1, 2), 20, Some (35 / 2))]"
    by code_simp
  have c: "card (Day ` set sample_frame) = 2"
    using global_daily_length [of sample_frame] by (simp add: g)
  from avg_daily_truncated_mean [of sample_frame] ne
  have "mean (col_doses (global_daily sample_frame)) =
          Some (of_int (sum_list (col_doses (global_daily sample_frame))) / of_nat (card (Day ` set sample_frame)))"
    and "avg_daily sample_frame =
          Inr (sgn (sum_list (col_doses (global_daily sample_frame)))
               * (\<bar>sum_list (col_doses (global_daily sample_frame))\<bar> div int (card (Day ` set sample_frame))))"
    by blast+
  then have "mean (col_doses (global_daily sample_frame)) = Some (35 / 2)"
    and "avg_daily sample_frame = Inr 17"
    by (simp_all add: c g col_doses_def)
  moreover have "length sample_frame = 3" by (simp add: sample_frame_def)
  ultimately show ?thesis using ne by simp
qed







section \<open>The worked example\<close>

text \<open>
  Claim C9. For the frame with the rows (A, 2021-01-01, 10), (B, 2021-01-01, 5) and
  (A, 2021-01-02, 20), \<open>global_daily\<close> is exactly the two rows (2021-01-01, 15, 15.0) and
  (2021-01-02, 20, 17.5), and the ranking cut to one row is exactly (A, 30).
\<close>

theorem sample_frame_views:
  "global_daily sample_frame = [((2021, 1, 1), 15, Some 15), ((2021, 1, 2), 20, Some (35 / 2))]
   \<and> top_to_show sample_frame 1 = [(''A'', 30)]"
  by code_simp

end
